theory Spec2Isabelle
  imports Complex_Main
begin

section \<open>Pikax utilities: request with retry, progress printer\<close>

text \<open>
  A shallow embedding of \<^verbatim>\<open>src/pikax/util.py\<close>: the function \<^verbatim>\<open>req\<close> (lines 40-163),
  the function \<^verbatim>\<open>log\<close> (lines 284-342) and the class \<^verbatim>\<open>Printer\<close> (lines 202-268).

  The modules \<^verbatim>\<open>settings\<close> and \<^verbatim>\<open>texts\<close> that \<^verbatim>\<open>util.py\<close> imports are not among
  the sources. The constants of \<^verbatim>\<open>settings\<close> that the code reads are the fields of a
  record passed to every function. A format string of \<^verbatim>\<open>texts\<close> is a constructor
  that holds the arguments given to \<^verbatim>\<open>format\<close>.
\<close>

subsection \<open>Settings\<close>

text \<open>
  The five \<^verbatim>\<open>LOG_*\<close> flags are the ones copied into the module globals at lines 30-34.
  A delay is \<^verbatim>\<open>None\<close> or a number that \<^verbatim>\<open>float\<close> and \<^verbatim>\<open>time.sleep\<close> accept
  (a non-negative number); its type is left open.
\<close>

record 'd settings =
  LOG_STD :: bool
  LOG_INFORM :: bool
  LOG_SAVE :: bool
  LOG_WARN :: bool
  LOG_NORMAL :: bool
  DELAY_PER_REQUEST :: "'d option"
  REQUEST_RETRY_DELAY :: "'d option"
  CLEAR_LINE :: string

subsection \<open>log (lines 284-342)\<close>

text \<open>
  One call of \<^verbatim>\<open>print\<close>: the file written, the \<^verbatim>\<open>start\<close> string, the marker put
  after it (if any), the objects and the \<^verbatim>\<open>end\<close> string. The callers in this module
  never pass \<^verbatim>\<open>sep\<close>, \<^verbatim>\<open>file\<close> or \<^verbatim>\<open>flush\<close>, so the file is standard output or
  the log file of the \<^verbatim>\<open>save\<close> branch.
\<close>

datatype sink = Stdout | LogFile

datatype 'm printed = Printed sink string "string option" 'm string

record log_kw =
  kw_end :: string
  kw_start :: string
  inform :: bool
  save :: bool
  error :: bool
  warn :: bool
  normal :: bool

definition kw :: log_kw where
  "kw = \<lparr>kw_end = [CHR 0x0A], kw_start = [], inform = False, save = False,
          error = False, warn = False, normal = False\<rparr>"

definition log :: "'d settings \<Rightarrow> 'm \<Rightarrow> log_kw \<Rightarrow> 'm printed list" where
  "log cfg objects k =
     (if LOG_NORMAL cfg \<and> normal k
      then [Printed Stdout (kw_start k) None objects (kw_end k)]
      else
        (if LOG_INFORM cfg \<and> inform k
         then [Printed Stdout (kw_start k) (Some ''>>>'') objects (kw_end k)] else []) @
        (if LOG_SAVE cfg \<and> save k
         then [Printed LogFile (kw_start k) None objects (kw_end k)] else []) @
        (if LOG_INFORM cfg \<and> error k
         then [Printed Stdout (kw_start k) (Some ''!!!'') objects (kw_end k)] else []) @
        (if LOG_WARN cfg \<and> warn k
         then [Printed Stdout (kw_start k) (Some ''###'') objects (kw_end k)] else []) @
        (if LOG_STD cfg \<and> \<not> (inform k \<or> save k \<or> error k \<or> warn k)
         then [Printed Stdout (kw_start k) None objects (kw_end k)] else []))"

subsection \<open>req (lines 40-163)\<close>

type_synonym dict = "(string \<times> string) list"

text \<open>
  A response of the \<^verbatim>\<open>requests\<close> library: its truth value (\<^verbatim>\<open>bool(res)\<close>), its
  status code and its body.
\<close>

record response =
  ok :: bool
  status_code :: int
  body :: string

text \<open>The keyword arguments handed to the requester at line 129, the same at every attempt.\<close>

record call =
  url :: string
  headers :: dict
  params :: "dict option"
  timeout :: int
  data :: "string option"
  proxies :: "dict option"
  verify :: bool

text \<open>
  What one call of the requester does: it returns a response, or raises
  \<^verbatim>\<open>requests.exceptions.Timeout\<close>, another \<^verbatim>\<open>requests.exceptions.RequestException\<close>,
  or an exception outside that hierarchy, which no \<^verbatim>\<open>except\<close> clause of \<^verbatim>\<open>req\<close>
  catches.
\<close>

datatype attempt =
    Returns response
  | RaisesTimeout string
  | RaisesRequestException string
  | RaisesOther string

text \<open>
  The \<^verbatim>\<open>requests\<close> module or a session: the behaviour of \<^verbatim>\<open>get\<close> and \<^verbatim>\<open>post\<close> at
  the k-th call (counted from 0) made by one run of \<^verbatim>\<open>req\<close>.
\<close>

record handler =
  h_get :: "call \<Rightarrow> nat \<Rightarrow> attempt"
  h_post :: "call \<Rightarrow> nat \<Rightarrow> attempt"

datatype req_text =
    REQUEST_INFO string string "dict option"
  | STATUS_CODE int
  | REQUEST_FALSEY int
  | REQUEST_INVALID_STATUS_CODE int int
  | REQUEST_TIME_OUT int
  | REQUEST_REASON string
  | REQUEST_EXCEPTION int
  | REQUEST_MSG string

text \<open>
  \<^verbatim>\<open>ReqException\<close> holds the arguments of \<^verbatim>\<open>texts.REQUEST_EXCEPTION_MSG.format\<close>:
  request type, url and params. \<^verbatim>\<open>Uncaught\<close> is an exception of the requester that
  leaves \<^verbatim>\<open>req\<close> as it is.
\<close>

datatype req_error = ReqException string string "dict option" | Uncaught string

text \<open>
  What a run of \<^verbatim>\<open>req\<close> does besides returning: network calls, printed lines,
  the sleep of line 144 and the sleep of line 160.
\<close>

datatype 'd effect =
    Network nat
  | Output "req_text printed"
  | RateLimitSleep 'd
  | RetrySleep 'd

definition logged :: "bool \<Rightarrow> req_text printed list \<Rightarrow> 'd effect list" where
  "logged log_req ps = (if log_req then map Output ps else [])"

text \<open>
  \<^verbatim>\<open>str.upper\<close> (line 121) on a request type written in ASCII: the letters a to z
  become A to Z and every other character stays. Python's \<^verbatim>\<open>str.upper\<close> also maps
  letters outside ASCII, which this definition leaves as they are: for such a request type
  the string carried by \<^verbatim>\<open>ReqException\<close> is not modelled. The general properties below
  hold for whatever \<open>upper\<close> returns; only the concrete runs evaluate it, on ASCII.
\<close>

definition upper_char :: "char \<Rightarrow> char" where
  "upper_char c =
     (case map_of (zip ''abcdefghijklmnopqrstuvwxyz'' ''ABCDEFGHIJKLMNOPQRSTUVWXYZ'') c of
        None \<Rightarrow> c
      | Some C \<Rightarrow> C)"

definition upper :: "string \<Rightarrow> string" where
  "upper s = map upper_char s"

text \<open>
  One pass through the \<^verbatim>\<open>try\<close> statement (lines 125-156). The result is \<^verbatim>\<open>Some\<close> when
  the pass leaves \<^verbatim>\<open>req\<close> (a returned response, or an exception that is not caught) and
  \<^verbatim>\<open>None\<close> when control reaches line 158.
\<close>

definition try_request ::
  "'d settings \<Rightarrow> (nat \<Rightarrow> attempt) \<Rightarrow> string \<Rightarrow> string \<Rightarrow> dict option \<Rightarrow> string option \<Rightarrow>
   bool \<Rightarrow> int \<Rightarrow> int \<Rightarrow> 'd effect list \<times> (req_error + response) option" where
  "try_request cfg requester req_type u ps err_msg log_req retries curr_retries =
     (let pre = logged log_req (log cfg (REQUEST_INFO req_type u ps) (kw\<lparr>kw_end := []\<rparr>)) @
                [Network (nat curr_retries)]
      in case requester (nat curr_retries) of
        Returns res \<Rightarrow>
          (let pre = pre @ logged log_req (log cfg (STATUS_CODE (status_code res)) kw)
           in if \<not> ok res then
                (pre @ logged log_req (log cfg (REQUEST_FALSEY retries) (kw\<lparr>save := True\<rparr>)),
                 None)
              else if status_code res \<ge> 400 then
                (pre @ logged log_req
                   (log cfg (REQUEST_INVALID_STATUS_CODE (status_code res) retries)
                      (kw\<lparr>save := True\<rparr>)),
                 None)
              else
                (pre @ (case DELAY_PER_REQUEST cfg of None \<Rightarrow> [] | Some d \<Rightarrow> [RateLimitSleep d]),
                 Some (Inr res)))
      | RaisesTimeout e \<Rightarrow>
          (pre @ logged log_req
             (log cfg (REQUEST_TIME_OUT retries) (kw\<lparr>save := True\<rparr>) @
              log cfg (REQUEST_REASON e) (kw\<lparr>save := True, inform := True\<rparr>)),
           None)
      | RaisesRequestException e \<Rightarrow>
          (pre @ logged log_req
             (log cfg (REQUEST_EXCEPTION retries) (kw\<lparr>save := True, inform := True\<rparr>) @
              log cfg (REQUEST_REASON e) (kw\<lparr>save := True, inform := True\<rparr>) @
              (case err_msg of
                 None \<Rightarrow> []
               | Some m \<Rightarrow> if m = [] then [] else log cfg (REQUEST_MSG m) (kw\<lparr>inform := True\<rparr>))),
           None)
      | RaisesOther e \<Rightarrow> (pre, Some (Inl (Uncaught e))))"

text \<open>The \<^verbatim>\<open>while\<close> loop of lines 124-160 and the \<^verbatim>\<open>raise\<close> of line 163.\<close>

function req_loop ::
  "'d settings \<Rightarrow> (nat \<Rightarrow> attempt) \<Rightarrow> string \<Rightarrow> string \<Rightarrow> dict option \<Rightarrow> string option \<Rightarrow>
   bool \<Rightarrow> int \<Rightarrow> int \<Rightarrow> 'd effect list \<times> (req_error + response)" where
  "req_loop cfg requester req_type u ps err_msg log_req retries curr_retries =
     (if curr_retries < retries then
        (case try_request cfg requester req_type u ps err_msg log_req retries curr_retries of
           (effs, Some outcome) \<Rightarrow> (effs, outcome)
         | (effs, None) \<Rightarrow>
             (let sleep = (case REQUEST_RETRY_DELAY cfg of None \<Rightarrow> []
                           | Some d \<Rightarrow> [RetrySleep d]);
                  (rest, outcome) =
                    req_loop cfg requester req_type u ps err_msg log_req retries (curr_retries + 1)
              in (effs @ sleep @ rest, outcome)))
      else ([], Inl (ReqException req_type u ps)))"
  by pat_completeness auto
termination
  by (relation "measure (\<lambda>(cfg, requester, req_type, u, ps, err_msg, log_req, retries, curr_retries).
        nat (retries - curr_retries))") auto

text \<open>
  \<^verbatim>\<open>req\<close> itself: lines 121-123 choose the requester (\<^verbatim>\<open>post\<close> for every request
  type but GET), then the loop runs from \<^verbatim>\<open>curr_retries = 0\<close>. The argument
  \<^verbatim>\<open>requests\<close> is the module used when no session is given.
\<close>

definition select_requester :: "handler \<Rightarrow> handler option \<Rightarrow> string \<Rightarrow> call \<Rightarrow> nat \<Rightarrow> attempt" where
  "select_requester requests session req_type =
     (let handler = (case session of None \<Rightarrow> requests | Some s \<Rightarrow> s)
      in if ''GET'' = req_type then h_get handler else h_post handler)"

definition req ::
  "'d settings \<Rightarrow> handler \<Rightarrow> string \<Rightarrow> string \<Rightarrow> handler option \<Rightarrow> dict option \<Rightarrow>
   string option \<Rightarrow> dict \<Rightarrow> int \<Rightarrow> string option \<Rightarrow> bool \<Rightarrow> int \<Rightarrow> dict option \<Rightarrow> bool \<Rightarrow>
   'd effect list \<times> (req_error + response)" where
  "req cfg requests u req_type session ps dat hdrs tmo err_msg log_req retries prx vfy =
     (let req_type = upper req_type;
          requester = select_requester requests session req_type
      in req_loop cfg
           (requester \<lparr>url = u, headers = hdrs, params = ps, timeout = tmo, data = dat,
                       proxies = prx, verify = vfy\<rparr>)
           req_type u ps err_msg log_req retries 0)"

text \<open>The number of network calls of a run, and its effects other than printing.\<close>

definition attempts :: "'d effect list \<Rightarrow> nat" where
  "attempts effs = length (filter (\<lambda>e. case e of Network k \<Rightarrow> True | _ \<Rightarrow> False) effs)"

definition silent :: "'d effect list \<Rightarrow> 'd effect list" where
  "silent effs = filter (\<lambda>e. case e of Output p \<Rightarrow> False | _ \<Rightarrow> True) effs"

text \<open>A transient failure: what the loop answers with another attempt.\<close>

definition transient :: "attempt \<Rightarrow> bool" where
  "transient a =
     (case a of
        Returns res \<Rightarrow> \<not> ok res \<or> status_code res \<ge> 400
      | RaisesTimeout e \<Rightarrow> True
      | RaisesRequestException e \<Rightarrow> True
      | RaisesOther e \<Rightarrow> False)"

subsection \<open>Python floats\<close>

text \<open>
  \<^verbatim>\<open>Printer\<close> computes with Python floats: clock readings, their differences,
  quotients and sums. The arithmetic is a parameter of the model, so that what is proved
  holds for every arithmetic, binary floating point included. Each field is one
  operation of the source:
  \<^item> \<open>f_int\<close>: an int operand converted to a float (\<^verbatim>\<open>float(n)\<close>);
  \<^item> \<open>f_inf\<close>: \<^verbatim>\<open>float("inf")\<close>;
  \<^item> \<open>f_truediv\<close>: \<^verbatim>\<open>a / b\<close> on two ints, for \<open>b \<noteq> 0\<close>;
  \<^item> \<open>f_sub\<close>, \<open>f_mul\<close>, \<open>f_div\<close>: \<^verbatim>\<open>x - y\<close>, \<^verbatim>\<open>x * y\<close> and \<^verbatim>\<open>x / y\<close> (for a
    divisor that is not zero) on two floats;
  \<^item> \<open>f_sum\<close>: the builtin \<^verbatim>\<open>sum\<close>;
  \<^item> \<open>f_floor\<close>: \<^verbatim>\<open>math.floor\<close>; \<open>f_round\<close>: the builtin \<^verbatim>\<open>round\<close>;
  \<^item> \<open>f_eq\<close>: \<^verbatim>\<open>==\<close>.
  A division by a zero int raises \<^verbatim>\<open>ZeroDivisionError\<close>, and arithmetic on \<^verbatim>\<open>None\<close>
  raises \<^verbatim>\<open>TypeError\<close>; both are results of the model. \<^verbatim>\<open>OverflowError\<close> (an int
  quotient beyond the range of a float) is not modelled.
\<close>

record 'f float_ops =
  f_int :: "int \<Rightarrow> 'f"
  f_inf :: 'f
  f_truediv :: "int \<Rightarrow> int \<Rightarrow> 'f"
  f_sub :: "'f \<Rightarrow> 'f \<Rightarrow> 'f"
  f_mul :: "'f \<Rightarrow> 'f \<Rightarrow> 'f"
  f_div :: "'f \<Rightarrow> 'f \<Rightarrow> 'f"
  f_sum :: "'f list \<Rightarrow> 'f"
  f_floor :: "'f \<Rightarrow> int"
  f_round :: "'f \<Rightarrow> int"
  f_eq :: "'f \<Rightarrow> 'f \<Rightarrow> bool"

datatype py_error = ZeroDivisionError | TypeError

text \<open>The number zero: the ints \<^verbatim>\<open>0\<close> of the window and the literals \<^verbatim>\<open>0.0\<close>, \<^verbatim>\<open>0.00\<close>.\<close>

definition zero :: "'f float_ops \<Rightarrow> 'f" where
  "zero fl = f_int fl 0"

text \<open>\<^verbatim>\<open>a / b\<close> on two ints, and \<^verbatim>\<open>x / n\<close> on a float and an int.\<close>

definition truediv :: "'f float_ops \<Rightarrow> int \<Rightarrow> int \<Rightarrow> py_error + 'f" where
  "truediv fl a b = (if b = 0 then Inl ZeroDivisionError else Inr (f_truediv fl a b))"

definition div_int :: "'f float_ops \<Rightarrow> 'f \<Rightarrow> int \<Rightarrow> py_error + 'f" where
  "div_int fl x n = (if n = 0 then Inl ZeroDivisionError else Inr (f_div fl x (f_int fl n)))"

text \<open>The slice \<^verbatim>\<open>xs[i:]\<close>: a negative \<open>i\<close> counts from the end.\<close>

definition slice_from :: "'a list \<Rightarrow> int \<Rightarrow> 'a list" where
  "slice_from xs i =
     (if i < 0 then drop (nat (int (length xs) + i)) xs else drop (nat i) xs)"

text \<open>Truth value of an optional string, as in \<^verbatim>\<open>if msg:\<close>.\<close>

definition truthy :: "string option \<Rightarrow> bool" where
  "truthy s = (case s of None \<Rightarrow> False | Some t \<Rightarrow> t \<noteq> [])"

subsection \<open>Printer (lines 202-268)\<close>

text \<open>
  The two progress texts of line 242 and line 246 with the arguments of \<^verbatim>\<open>format\<close>,
  and the message appended at line 249 (if any).
\<close>

datatype 'f progress_line =
    PROGRESS_WITH_TIME_LEFT int int int "'f option"
  | PROGRESS_TEXT int int int

type_synonym 'f progress_text = "'f progress_line \<times> string option"

datatype 'f done_text = DONE_MSG string | DONE | DONE_TIME_TAKEN 'f

record 'f printer =
  is_first_print :: bool
  last_percent :: "int option"
  last_percent_time_left :: "'f option"
  last_percent_print_time :: "'f option"
  est_time_lefts :: "'f list"
  start_time :: "'f option"
  last_printed_line :: "'f progress_text option"

text \<open>\<^verbatim>\<open>Printer.__init__\<close> (lines 204-211).\<close>

definition Printer_init :: "'f float_ops \<Rightarrow> 'f printer" where
  "Printer_init fl =
     \<lparr>is_first_print = True,
      last_percent = None,
      last_percent_time_left = None,
      last_percent_print_time = None,
      est_time_lefts = [zero fl, zero fl, zero fl, zero fl, zero fl],
      start_time = None,
      last_printed_line = None\<rparr>"

text \<open>
  Line 214: \<^verbatim>\<open>math.floor(curr / total * 100)\<close>. The arguments \<^verbatim>\<open>curr\<close> and
  \<^verbatim>\<open>total\<close> are written \<open>curr_n\<close> and \<open>total_n\<close>.
\<close>

definition percent :: "'f float_ops \<Rightarrow> int \<Rightarrow> int \<Rightarrow> py_error + int" where
  "percent fl curr_n total_n =
     (case truediv fl curr_n total_n of
        Inl e \<Rightarrow> Inl e
      | Inr q \<Rightarrow> Inr (f_floor fl (f_mul fl q (f_int fl 100))))"

text \<open>Lines 225-226: the sample \<^verbatim>\<open>bad_est_time_left\<close>.\<close>

definition bad_est_time_left ::
  "'f float_ops \<Rightarrow> 'f \<Rightarrow> int \<Rightarrow> 'f printer \<Rightarrow> py_error + 'f" where
  "bad_est_time_left fl curr_time curr_percent p =
     (case last_percent_print_time p of
        None \<Rightarrow> Inl TypeError
      | Some t \<Rightarrow>
          (case last_percent p of
             None \<Rightarrow> Inl TypeError
           | Some lp \<Rightarrow>
               (case div_int fl (f_sub fl curr_time t) (curr_percent - lp) of
                  Inl e \<Rightarrow> Inl e
                | Inr q \<Rightarrow> Inr (f_mul fl q (f_int fl (100 - curr_percent))))))"

text \<open>Lines 229-231: \<^verbatim>\<open>chunk_left\<close>.\<close>

definition chunk_left :: "'f float_ops \<Rightarrow> int \<Rightarrow> 'f printer \<Rightarrow> py_error + int" where
  "chunk_left fl curr_percent p =
     (case last_percent p of
        None \<Rightarrow> Inl TypeError
      | Some lp \<Rightarrow>
          (let percent_left = 100 - curr_percent;
               percent_diff = curr_percent - lp
           in case truediv fl percent_left percent_diff of
                Inl e \<Rightarrow> Inl e
              | Inr q \<Rightarrow> Inr (f_round fl q)))"

text \<open>Lines 232-235: the estimate, from the window and \<^verbatim>\<open>chunk_left\<close>.\<close>

definition smoothed :: "'f float_ops \<Rightarrow> 'f list \<Rightarrow> int \<Rightarrow> py_error + 'f" where
  "smoothed fl w c =
     (if c < int (length w) then
        (if c \<noteq> 0 then div_int fl (f_sum fl (slice_from w (- c))) c else Inr (zero fl))
      else div_int fl (f_sum fl w) (int (length w)))"

text \<open>
  Lines 214-239 of \<^verbatim>\<open>print_progress\<close>: the percent, the estimate and the fields they
  update. \<open>curr_time\<close> is the clock read at line 215 and \<open>start\<close> the clock read at
  line 221. The result is the pair of \<^verbatim>\<open>curr_percent\<close> and \<^verbatim>\<open>est_time_left\<close>, or the
  exception raised, together with the fields as they are at that point.
\<close>

definition estimate ::
  "'f float_ops \<Rightarrow> 'f \<Rightarrow> 'f \<Rightarrow> int \<Rightarrow> int \<Rightarrow> 'f printer \<Rightarrow>
   (py_error + int \<times> 'f option) \<times> 'f printer" where
  "estimate fl curr_time start curr_n total_n p =
     (case percent fl curr_n total_n of
        Inl e \<Rightarrow> (Inl e, p)
      | Inr curr_percent \<Rightarrow>
          if is_first_print p then
            (let est_time_left = Some (f_inf fl)
             in (Inr (curr_percent, est_time_left),
                 p\<lparr>is_first_print := False,
                   last_percent_time_left := est_time_left,
                   last_percent_print_time := Some curr_time,
                   start_time := Some start,
                   last_percent := Some curr_percent\<rparr>))
          else if last_percent p = Some curr_percent then
            (Inr (curr_percent, last_percent_time_left p),
             p\<lparr>last_percent := Some curr_percent\<rparr>)
          else
            (case bad_est_time_left fl curr_time curr_percent p of
               Inl e \<Rightarrow> (Inl e, p)
             | Inr bad \<Rightarrow>
                 (let p = p\<lparr>est_time_lefts := slice_from (est_time_lefts p @ [bad]) 1\<rparr>
                  in case chunk_left fl curr_percent p of
                       Inl e \<Rightarrow> (Inl e, p)
                     | Inr c \<Rightarrow>
                         (case smoothed fl (est_time_lefts p) c of
                            Inl e \<Rightarrow> (Inl e, p)
                          | Inr est_time_left \<Rightarrow>
                              (Inr (curr_percent, Some est_time_left),
                               p\<lparr>last_percent_time_left := Some est_time_left,
                                 last_percent_print_time := Some curr_time,
                                 last_percent := Some curr_percent\<rparr>)))))"

text \<open>\<^verbatim>\<open>est_time_left != 0.0\<close> (line 241); \<^verbatim>\<open>None\<close> is not equal to a number.\<close>

definition nonzero :: "'f float_ops \<Rightarrow> 'f option \<Rightarrow> bool" where
  "nonzero fl est = (case est of None \<Rightarrow> True | Some x \<Rightarrow> \<not> f_eq fl x (zero fl))"

text \<open>Lines 241-249: the text printed.\<close>

definition progress_text ::
  "'f float_ops \<Rightarrow> int \<Rightarrow> int \<Rightarrow> int \<Rightarrow> 'f option \<Rightarrow> string option \<Rightarrow> 'f progress_text" where
  "progress_text fl curr_n total_n curr_percent est_time_left msg =
     (if nonzero fl est_time_left
      then PROGRESS_WITH_TIME_LEFT curr_n total_n curr_percent est_time_left
      else PROGRESS_TEXT curr_n total_n curr_percent,
      if truthy msg then msg else None)"

text \<open>
  \<^verbatim>\<open>Printer.print_progress\<close> (lines 213-252): what is printed, or the exception, and the
  printer afterwards.
\<close>

definition print_progress ::
  "'f float_ops \<Rightarrow> 'd settings \<Rightarrow> 'f \<Rightarrow> 'f \<Rightarrow> int \<Rightarrow> int \<Rightarrow> string option \<Rightarrow> 'f printer \<Rightarrow>
   (py_error + 'f progress_text printed list) \<times> 'f printer" where
  "print_progress fl cfg curr_time start curr_n total_n msg p =
     (case estimate fl curr_time start curr_n total_n p of
        (Inl e, p) \<Rightarrow> (Inl e, p)
      | (Inr (curr_percent, est_time_left), p) \<Rightarrow>
          (let text = progress_text fl curr_n total_n curr_percent est_time_left msg
           in (Inr (log cfg text (kw\<lparr>kw_end := [], kw_start := CLEAR_LINE cfg, inform := True\<rparr>)),
               p\<lparr>last_printed_line := Some text\<rparr>)))"

text \<open>
  \<^verbatim>\<open>Printer.print_done\<close> (lines 254-268): the text of lines 255-261, where \<open>now\<close> is
  the clock read at line 261, then the assignments of lines 262-268.
\<close>

definition done_text :: "'f float_ops \<Rightarrow> 'f \<Rightarrow> string option \<Rightarrow> 'f printer \<Rightarrow> py_error + 'f done_text" where
  "done_text fl now msg p =
     (case (if truthy msg then msg else None) of
        Some m \<Rightarrow> Inr (DONE_MSG m)
      | None \<Rightarrow>
          if is_first_print p then Inr DONE
          else (case start_time p of
                  None \<Rightarrow> Inl TypeError
                | Some s \<Rightarrow> Inr (DONE_TIME_TAKEN (f_sub fl now s))))"

definition print_done ::
  "'f float_ops \<Rightarrow> 'd settings \<Rightarrow> 'f \<Rightarrow> string option \<Rightarrow> 'f printer \<Rightarrow>
   (py_error + 'f done_text printed list) \<times> 'f printer" where
  "print_done fl cfg now msg p =
     (case done_text fl now msg p of
        Inl e \<Rightarrow> (Inl e, p)
      | Inr text \<Rightarrow>
          (Inr (log cfg text (kw\<lparr>normal := True\<rparr>)),
           p\<lparr>is_first_print := True,
             start_time := None,
             last_percent := None,
             last_percent_print_time := None,
             last_percent_time_left := None,
             last_printed_line := None,
             est_time_lefts := [zero fl, zero fl, zero fl]\<rparr>))"

text \<open>
  A caller's sequence of calls on one printer, in order; an exception ends it.
\<close>

datatype 'f printer_call =
    Update 'f 'f int int "string option"
  | Finish 'f "string option"

fun calls ::
  "'f float_ops \<Rightarrow> 'd settings \<Rightarrow> 'f printer_call list \<Rightarrow> 'f printer \<Rightarrow> py_error + 'f printer" where
  "calls fl cfg [] p = Inr p"
| "calls fl cfg (Update curr_time start curr_n total_n msg # cs) p =
     (case print_progress fl cfg curr_time start curr_n total_n msg p of
        (Inl e, p') \<Rightarrow> Inl e
      | (Inr out, p') \<Rightarrow> calls fl cfg cs p')"
| "calls fl cfg (Finish now msg # cs) p =
     (case print_done fl cfg now msg p of
        (Inl e, p') \<Rightarrow> Inl e
      | (Inr out, p') \<Rightarrow> calls fl cfg cs p')"

subsection \<open>An arithmetic for concrete runs\<close>

text \<open>
  Exact rational arithmetic with one more value for \<^verbatim>\<open>float("inf")\<close>. It gives what
  binary floating point gives wherever every intermediate result is a float itself
  (integers and dyadic fractions of moderate size), as in the concrete runs stated below. \<open>round_half_even\<close>
  is the rounding of Python 3's \<^verbatim>\<open>round\<close>. The printer never computes with the
  infinite value; the operations return it unchanged.
\<close>

datatype num = Num rat | Inf

definition round_half_even :: "rat \<Rightarrow> int" where
  "round_half_even x =
     (let f = \<lfloor>x\<rfloor>; d = x - of_int f
      in if d < 1 / 2 then f else if 1 / 2 < d then f + 1 else if even f then f else f + 1)"

fun lift2 :: "(rat \<Rightarrow> rat \<Rightarrow> rat) \<Rightarrow> num \<Rightarrow> num \<Rightarrow> num" where
  "lift2 f (Num a) (Num b) = Num (f a b)"
| "lift2 f a b = Inf"

fun to_int :: "(rat \<Rightarrow> int) \<Rightarrow> num \<Rightarrow> int" where
  "to_int f (Num a) = f a"
| "to_int f Inf = 0"

definition exact :: "num float_ops" where
  "exact =
     \<lparr>f_int = (\<lambda>n. Num (of_int n)),
      f_inf = Inf,
      f_truediv = (\<lambda>a b. Num (of_int a / of_int b)),
      f_sub = lift2 (-),
      f_mul = lift2 (*),
      f_div = lift2 (/),
      f_sum = (\<lambda>xs. foldl (lift2 (+)) (Num 0) xs),
      f_floor = to_int floor,
      f_round = to_int round_half_even,
      f_eq = (=)\<rparr>"

subsection \<open>Concrete settings, networks and runs\<close>

text \<open>
  Settings with every log category on and both delays set; two responses; a network whose
  \<^verbatim>\<open>get\<close> fails twice with status 500 and then succeeds and whose \<^verbatim>\<open>post\<close> always
  raises; a network whose \<^verbatim>\<open>get\<close> always succeeds.
\<close>

definition cfg0 :: "nat settings" where
  "cfg0 =
     \<lparr>LOG_STD = True, LOG_INFORM = True, LOG_SAVE = True, LOG_WARN = True, LOG_NORMAL = True,
      DELAY_PER_REQUEST = Some 2, REQUEST_RETRY_DELAY = Some 1, CLEAR_LINE = [CHR 0x0D]\<rparr>"

definition r500 :: response where
  "r500 = \<lparr>ok = False, status_code = 500, body = []\<rparr>"

definition r200 :: response where
  "r200 = \<lparr>ok = True, status_code = 200, body = ''ok''\<rparr>"

definition net0 :: handler where
  "net0 =
     \<lparr>h_get = (\<lambda>c k. if k < 2 then Returns r500 else Returns r200),
      h_post = (\<lambda>c k. if even k then RaisesTimeout ''slow''
                       else RaisesRequestException ''reset'')\<rparr>"

definition net1 :: handler where
  "net1 = \<lparr>h_get = (\<lambda>c k. Returns r200), h_post = (\<lambda>c k. Returns r500)\<rparr>"

text \<open>
  The state of a fresh printer after \<^verbatim>\<open>print_progress(0, 100)\<close> at time 0, after
  \<^verbatim>\<open>print_progress(25, 100)\<close> at time 10 and after \<^verbatim>\<open>print_progress(100, 100)\<close> at
  time 10.
\<close>

definition p0 :: "num printer" where
  "p0 =
     \<lparr>is_first_print = False,
      last_percent = Some 0,
      last_percent_time_left = Some Inf,
      last_percent_print_time = Some (Num 0),
      est_time_lefts = [Num 0, Num 0, Num 0, Num 0, Num 0],
      start_time = Some (Num 0),
      last_printed_line = Some (PROGRESS_WITH_TIME_LEFT 0 100 0 (Some Inf), None)\<rparr>"

definition p25 :: "num printer" where
  "p25 =
     \<lparr>is_first_print = False,
      last_percent = Some 25,
      last_percent_time_left = Some Inf,
      last_percent_print_time = Some (Num 10),
      est_time_lefts = [Num 0, Num 0, Num 0, Num 0, Num 0],
      start_time = Some (Num 10),
      last_printed_line = Some (PROGRESS_WITH_TIME_LEFT 25 100 25 (Some Inf), None)\<rparr>"

definition p100 :: "num printer" where
  "p100 =
     \<lparr>is_first_print = False,
      last_percent = Some 100,
      last_percent_time_left = Some Inf,
      last_percent_print_time = Some (Num 10),
      est_time_lefts = [Num 0, Num 0, Num 0, Num 0, Num 0],
      start_time = Some (Num 10),
      last_printed_line = Some (PROGRESS_WITH_TIME_LEFT 100 100 100 (Some Inf), None)\<rparr>"

subsection \<open>Notions used to state the properties\<close>

text \<open>
  The most recent \<open>k\<close> samples of a window are its last \<open>k\<close> entries; the average of
  a list is its sum divided by its length. \<open>recent_average\<close> is the estimate as claim C4
  words it: the average of the most recent \<open>c\<close> samples when \<open>c\<close> is smaller than the
  length of the window (and 0 when \<open>c\<close> is 0), the average of the whole window otherwise.
\<close>

definition most_recent :: "nat \<Rightarrow> 'a list \<Rightarrow> 'a list" where
  "most_recent k xs = drop (length xs - k) xs"

definition average :: "'f float_ops \<Rightarrow> 'f list \<Rightarrow> 'f" where
  "average fl xs = f_div fl (f_sum fl xs) (f_int fl (int (length xs)))"

definition recent_average :: "'f float_ops \<Rightarrow> 'f list \<Rightarrow> int \<Rightarrow> 'f" where
  "recent_average fl w c =
     (if c < int (length w)
      then (if c = 0 then zero fl else average fl (most_recent (nat c) w))
      else average fl w)"

text \<open>
  A call with \<^verbatim>\<open>total > 0\<close> (a call of \<^verbatim>\<open>print_done\<close> has no total), and a call
  of \<^verbatim>\<open>print_done\<close>.
\<close>

fun positive_total :: "'f printer_call \<Rightarrow> bool" where
  "positive_total (Update curr_time start curr_n total_n msg) = (0 < total_n)"
| "positive_total (Finish now msg) = True"

fun is_finish :: "'f printer_call \<Rightarrow> bool" where
  "is_finish (Update curr_time start curr_n total_n msg) = False"
| "is_finish (Finish now msg) = True"

text \<open>
  What holds of a printer between calls: the window is not empty, and once a progress has
  been printed the last percent, the time of its print and the start time are set.
\<close>

definition consistent :: "'f printer \<Rightarrow> bool" where
  "consistent p \<longleftrightarrow>
     est_time_lefts p \<noteq> [] \<and>
     (is_first_print p \<or>
      last_percent p \<noteq> None \<and> last_percent_print_time p \<noteq> None \<and> start_time p \<noteq> None)"

section \<open>Properties of req\<close>

subsection \<open>One pass and the loop\<close>

lemma attempts_append: "attempts (a @ b) = attempts a + attempts b"
  by (simp add: attempts_def)

lemma silent_append: "silent (a @ b) = silent a @ silent b"
  by (simp add: silent_def)

lemma attempts_silent: "attempts (silent effs) = attempts effs"
  by (induction effs) (auto simp: attempts_def silent_def split: effect.splits)

lemma try_request_attempts: "attempts (fst (try_request cfg rq t u ps em lr n k)) = 1"
  by (simp add: try_request_def attempts_def logged_def Let_def split: attempt.split option.split)

lemma try_request_transient:
  "transient (rq (nat k)) \<Longrightarrow> snd (try_request cfg rq t u ps em lr n k) = None"
  by (auto simp: try_request_def transient_def Let_def split: attempt.splits)

lemma try_request_outcome:
  "snd (try_request cfg rq t u ps em True n k) = snd (try_request cfg rq t u ps em False n k)"
  by (auto simp add: try_request_def Let_def split: attempt.split)

lemma try_request_silent:
  "silent (fst (try_request cfg rq t u ps em True n k)) = fst (try_request cfg rq t u ps em False n k)"
  by (auto simp add: try_request_def silent_def logged_def Let_def o_def split: attempt.split option.split)

lemma retry_sleep_attempts:
  "attempts (case d of None \<Rightarrow> [] | Some x \<Rightarrow> [RetrySleep x]) = 0"
  by (simp add: attempts_def split: option.split)

lemma retry_sleep_silent:
  "silent (case d of None \<Rightarrow> [] | Some x \<Rightarrow> [RetrySleep x]) = (case d of None \<Rightarrow> [] | Some x \<Rightarrow> [RetrySleep x])"
  by (simp add: silent_def split: option.split)

lemma req_loop_exhausts:
  assumes "\<forall>k. nat c \<le> k \<and> k < nat n \<longrightarrow> transient (rq k)" and "0 \<le> c" and "c \<le> n"
  shows "snd (req_loop cfg rq t u ps em lr n c) = Inl (ReqException t u ps) \<and>
         attempts (fst (req_loop cfg rq t u ps em lr n c)) = nat (n - c)"
  using assms
proof (induction "nat (n - c)" arbitrary: c)
  case 0
  then have "\<not> c < n" by simp
  then show ?case using 0 by (subst (1 2) req_loop.simps) (simp add: attempts_def)
next
  case (Suc m)
  then have lt: "c < n" by linarith
  with Suc.prems have "transient (rq (nat c))" by (simp add: nat_less_iff)
  then have none: "snd (try_request cfg rq t u ps em lr n c) = None"
    by (rule try_request_transient)
  obtain effs where tr: "try_request cfg rq t u ps em lr n c = (effs, None)"
    using none by (cases "try_request cfg rq t u ps em lr n c") simp
  have one: "attempts effs = 1"
    using try_request_attempts [of cfg rq t u ps em lr n c] tr by simp
  have ih: "snd (req_loop cfg rq t u ps em lr n (c + 1)) = Inl (ReqException t u ps) \<and>
         attempts (fst (req_loop cfg rq t u ps em lr n (c + 1))) = nat (n - (c + 1))"
  proof (rule Suc.hyps(1))
    show "m = nat (n - (c + 1))" using Suc.hyps(2) by linarith
    show "\<forall>k. nat (c + 1) \<le> k \<and> k < nat n \<longrightarrow> transient (rq k)"
      using Suc.prems(1,2) by (simp add: nat_add_distrib) 
    show "0 \<le> c + 1" using Suc.prems(2) by simp
    show "c + 1 \<le> n" using lt by simp
  qed
  obtain rest out where r: "req_loop cfg rq t u ps em lr n (c + 1) = (rest, out)"
    by (cases "req_loop cfg rq t u ps em lr n (c + 1)")
  have "nat (n - c) = 1 + nat (n - (c + 1))" using lt by linarith
  then show ?case
    using lt tr r ih one
    by (subst (1 2) req_loop.simps) (simp add: attempts_append retry_sleep_attempts)
qed

lemma req_loop_log_req:
  "snd (req_loop cfg rq t u ps em True n c) = snd (req_loop cfg rq t u ps em False n c) \<and>
   silent (fst (req_loop cfg rq t u ps em True n c)) = fst (req_loop cfg rq t u ps em False n c)"
proof (induction "nat (n - c)" arbitrary: c)
  case 0
  then have "\<not> c < n" by simp
  then show ?case by (subst (1 2 3 4) req_loop.simps) (simp add: silent_def)
next
  case (Suc m)
  then have lt: "c < n" by linarith
  have ih: "snd (req_loop cfg rq t u ps em True n (c + 1)) = snd (req_loop cfg rq t u ps em False n (c + 1)) \<and>
   silent (fst (req_loop cfg rq t u ps em True n (c + 1))) = fst (req_loop cfg rq t u ps em False n (c + 1))"
    by (rule Suc.hyps(1)) (use Suc.hyps(2) in linarith)
  obtain e1 o1 where t1: "try_request cfg rq t u ps em True n c = (e1, o1)"
    by (cases "try_request cfg rq t u ps em True n c")
  obtain e2 o2 where t2: "try_request cfg rq t u ps em False n c = (e2, o2)"
    by (cases "try_request cfg rq t u ps em False n c")
  have oo: "o1 = o2" using try_request_outcome [of cfg rq t u ps em n c] t1 t2 by simp
  have ee: "silent e1 = e2" using try_request_silent [of cfg rq t u ps em n c] t1 t2 by simp
  obtain r1 x1 where l1: "req_loop cfg rq t u ps em True n (c + 1) = (r1, x1)"
    by (cases "req_loop cfg rq t u ps em True n (c + 1)")
  obtain r2 x2 where l2: "req_loop cfg rq t u ps em False n (c + 1) = (r2, x2)"
    by (cases "req_loop cfg rq t u ps em False n (c + 1)")
  show ?case
    using lt t1 t2 oo ee l1 l2 ih
    by (subst (1 2 3 4) req_loop.simps)
       (simp add: silent_append retry_sleep_silent split: option.split)
qed

subsection \<open>Exhausted retries\<close>

text \<open>
  Claim C1. For \<^verbatim>\<open>retries = N\<close> with \<open>N \<ge> 1\<close>, if each of the \<open>N\<close> calls of the requester
  is a transient failure (a falsy response, a status code of 400 or more, a timeout or
  another request exception), then \<^verbatim>\<open>req\<close> makes exactly \<open>N\<close> network calls and raises
  \<^verbatim>\<open>ReqException\<close> with the (upper-cased) request type, the url and the params; no
  failure of a single attempt reaches the caller.
\<close>

theorem req_exhausts_retries:
  assumes "1 \<le> retries"
    and "\<forall>k<nat retries. transient
           (select_requester requests session (upper req_type)
              \<lparr>url = u, headers = hdrs, params = ps, timeout = tmo, data = dat,
               proxies = prx, verify = vfy\<rparr> k)"
  shows "attempts (fst (req cfg requests u req_type session ps dat hdrs tmo err_msg log_req
                         retries prx vfy)) = nat retries \<and>
         snd (req cfg requests u req_type session ps dat hdrs tmo err_msg log_req
                retries prx vfy) = Inl (ReqException (upper req_type) u ps)"
  using assms req_loop_exhausts [of 0 retries
      "select_requester requests session (upper req_type)
         \<lparr>url = u, headers = hdrs, params = ps, timeout = tmo, data = dat,
          proxies = prx, verify = vfy\<rparr>" cfg "upper req_type" u ps err_msg log_req]
  by (simp add: req_def Let_def)

text \<open>
  Three attempts on a network whose \<^verbatim>\<open>post\<close> raises a timeout, a request exception and a
  timeout again.
\<close>

theorem req_exhausts_retries_witness:
  "transient (h_post net0 \<lparr>url = ''http://x'', headers = [], params = None, timeout = 10,
      data = None, proxies = None, verify = True\<rparr> 0) \<and>
   transient (h_post net0 \<lparr>url = ''http://x'', headers = [], params = None, timeout = 10,
      data = None, proxies = None, verify = True\<rparr> 1) \<and>
   transient (h_post net0 \<lparr>url = ''http://x'', headers = [], params = None, timeout = 10,
      data = None, proxies = None, verify = True\<rparr> 2) \<and>
   attempts (fst (req cfg0 net0 ''http://x'' ''post'' None None None [] 10 None True 3 None True)) = 3 \<and>
   snd (req cfg0 net0 ''http://x'' ''post'' None None None [] 10 None True 3 None True)
     = Inl (ReqException ''POST'' ''http://x'' None)"
proof -
  have up: "upper ''post'' = ''POST''" by (simp add: upper_def upper_char_def)
  have h: "\<forall>k<nat 3. transient
      (select_requester net0 None (upper ''post'')
         \<lparr>url = ''http://x'', headers = [], params = None, timeout = 10, data = None,
          proxies = None, verify = True\<rparr> k)"
    by (simp add: up select_requester_def net0_def transient_def)
  show ?thesis
    using h req_exhausts_retries [of 3 net0 None "''post''" "''http://x''" "[]" None 10 None None True cfg0 None True]
    by (simp add: up net0_def transient_def)
qed

subsection \<open>No retries at all\<close>

text \<open>
  Claim C2 says that \<^verbatim>\<open>retries = 0\<close> gives exactly one attempt and no retry, which is
  also what the docstring promises (lines 96-97: \<^verbatim>\<open>retries\<close> is the "number of retries
  if request fails"; line 117: \<^verbatim>\<open>ReqException\<close> "if all retries fails"). The code does
  otherwise: the loop condition \<^verbatim>\<open>curr_retries < retries\<close> of line 124 is false at once,
  so \<^verbatim>\<open>req\<close> makes no network call, prints and sleeps nothing, and line 163 raises
  \<^verbatim>\<open>ReqException\<close> for a request that was never sent.
\<close>

theorem req_zero_retries:
  "req cfg requests u req_type session ps dat hdrs tmo err_msg log_req 0 prx vfy
     = ([], Inl (ReqException (upper req_type) u ps))"
  by (simp add: req_def Let_def req_loop.simps)

text \<open>
  On a network whose every answer would be a success: no attempt, and the exception.
\<close>

theorem req_zero_retries_witness:
  "req cfg0 net1 ''http://x'' ''get'' None None None [] 10 None True 0 None True
     = ([], Inl (ReqException ''GET'' ''http://x'' None)) \<and>
   attempts (fst (req cfg0 net1 ''http://x'' ''get'' None None None [] 10 None True 0 None True))
     = 0"
  using req_zero_retries [of cfg0 net1 "''http://x''" "''get''" None None None "[]" 10 None True None True]
  by (simp add: upper_def upper_char_def attempts_def)

subsection \<open>Success at the first attempt\<close>

text \<open>
  Claim C5. If the first call of the requester returns a truthy response with a status
  code below 400, then \<^verbatim>\<open>req\<close> returns that response after exactly one network call;
  apart from printing, it does nothing but that call and, when \<^verbatim>\<open>DELAY_PER_REQUEST\<close>
  is set, the sleep of line 144: the sleep of line 160 never happens.
\<close>

theorem req_first_attempt_succeeds:
  assumes "0 < retries"
    and "select_requester requests session (upper req_type)
           \<lparr>url = u, headers = hdrs, params = ps, timeout = tmo, data = dat,
            proxies = prx, verify = vfy\<rparr> 0 = Returns res"
    and "ok res" and "status_code res < 400"
  shows "snd (req cfg requests u req_type session ps dat hdrs tmo err_msg log_req retries prx vfy)
           = Inr res \<and>
         attempts (fst (req cfg requests u req_type session ps dat hdrs tmo err_msg log_req
                          retries prx vfy)) = 1 \<and>
         silent (fst (req cfg requests u req_type session ps dat hdrs tmo err_msg log_req
                        retries prx vfy))
           = Network 0 # (case DELAY_PER_REQUEST cfg of None \<Rightarrow> [] | Some d \<Rightarrow> [RateLimitSleep d])"
  using assms
  by (simp add: req_def Let_def req_loop.simps [of _ _ _ _ _ _ _ _ 0] try_request_def
      attempts_def silent_def logged_def split: option.split)

theorem req_first_attempt_succeeds_witness:
  "h_get net1 \<lparr>url = ''http://x'', headers = [], params = None, timeout = 10,
      data = None, proxies = None, verify = True\<rparr> 0 = Returns r200 \<and>
   ok r200 \<and> status_code r200 < 400 \<and>
   snd (req cfg0 net1 ''http://x'' ''get'' None None None [] 10 None True 3 None True) = Inr r200 \<and>
   attempts (fst (req cfg0 net1 ''http://x'' ''get'' None None None [] 10 None True 3 None True)) = 1 \<and>
   silent (fst (req cfg0 net1 ''http://x'' ''get'' None None None [] 10 None True 3 None True))
     = [Network 0, RateLimitSleep 2]"
proof -
  have up: "upper ''get'' = ''GET''" by (simp add: upper_def upper_char_def)
  have h: "select_requester net1 None (upper ''get'')
         \<lparr>url = ''http://x'', headers = [], params = None, timeout = 10, data = None,
          proxies = None, verify = True\<rparr> 0 = Returns r200"
    by (simp add: up select_requester_def net1_def)
  have r: "ok r200" "status_code r200 < 400" by (simp_all add: r200_def)
  show ?thesis
    using h r req_first_attempt_succeeds [of 3 net1 None "''get''" "''http://x''" "[]" None 10 None None True r200 cfg0 None True]
    by (simp add: net1_def cfg0_def)
qed

subsection \<open>The logging flag\<close>

text \<open>
  Claim C8. For the same request and the same network, \<^verbatim>\<open>req\<close> with \<^verbatim>\<open>log_req = True\<close>
  and with \<^verbatim>\<open>log_req = False\<close> returns the same response or raises the same exception
  after the same number of network calls; with the printed lines left out, the effects
  of the first run are the effects of the second.
\<close>

theorem req_log_req_no_effect:
  "snd (req cfg requests u req_type session ps dat hdrs tmo err_msg True retries prx vfy)
     = snd (req cfg requests u req_type session ps dat hdrs tmo err_msg False retries prx vfy) \<and>
   attempts (fst (req cfg requests u req_type session ps dat hdrs tmo err_msg True retries prx vfy))
     = attempts (fst (req cfg requests u req_type session ps dat hdrs tmo err_msg False retries
                        prx vfy)) \<and>
   silent (fst (req cfg requests u req_type session ps dat hdrs tmo err_msg True retries prx vfy))
     = fst (req cfg requests u req_type session ps dat hdrs tmo err_msg False retries prx vfy)"
proof -
  let ?rq = "select_requester requests session (upper req_type)
         \<lparr>url = u, headers = hdrs, params = ps, timeout = tmo, data = dat,
          proxies = prx, verify = vfy\<rparr>"
  have l: "snd (req_loop cfg ?rq (upper req_type) u ps err_msg True retries 0)
         = snd (req_loop cfg ?rq (upper req_type) u ps err_msg False retries 0) \<and>
       silent (fst (req_loop cfg ?rq (upper req_type) u ps err_msg True retries 0))
         = fst (req_loop cfg ?rq (upper req_type) u ps err_msg False retries 0)"
    by (rule req_loop_log_req)
  have a: "attempts (fst (req_loop cfg ?rq (upper req_type) u ps err_msg True retries 0))
         = attempts (fst (req_loop cfg ?rq (upper req_type) u ps err_msg False retries 0))"
    using l attempts_silent [of "fst (req_loop cfg ?rq (upper req_type) u ps err_msg True retries 0)"]
    by simp
  show ?thesis using l a by (simp add: req_def Let_def)
qed

text \<open>
  Two failures with status 500 and then a success, with and without logging.
\<close>

theorem req_log_req_no_effect_witness:
  "snd (req cfg0 net0 ''http://x'' ''get'' None None None [] 10 None True 3 None True) = Inr r200 \<and>
   snd (req cfg0 net0 ''http://x'' ''get'' None None None [] 10 None False 3 None True) = Inr r200 \<and>
   attempts (fst (req cfg0 net0 ''http://x'' ''get'' None None None [] 10 None True 3 None True)) = 3 \<and>
   fst (req cfg0 net0 ''http://x'' ''get'' None None None [] 10 None False 3 None True)
     = [Network 0, RetrySleep 1, Network 1, RetrySleep 1, Network 2, RateLimitSleep 2]"
proof -
  have up: "upper ''get'' = ''GET''" by (simp add: upper_def upper_char_def)
  have f: "req cfg0 net0 ''http://x'' ''get'' None None None [] 10 None False 3 None True
     = ([Network 0, RetrySleep 1, Network 1, RetrySleep 1, Network 2, RateLimitSleep 2], Inr r200)"
    by (simp add: req_def up select_requester_def net0_def Let_def req_loop.simps try_request_def
        logged_def cfg0_def r500_def r200_def)
  show ?thesis
    using f req_log_req_no_effect [of cfg0 net0 "''http://x''" "''get''" None None None "[]" 10 None 3 None True]
    by (simp add: attempts_def)
qed

section \<open>Properties of Printer\<close>

subsection \<open>The window and the estimate\<close>

lemma slice_from_1: "slice_from xs 1 = tl xs"
  by (simp add: slice_from_def drop_Suc)

lemma slice_from_neg:
  "0 < c \<Longrightarrow> c < int (length w) \<Longrightarrow> slice_from w (- c) = most_recent (nat c) w"
  by (simp add: slice_from_def most_recent_def nat_diff_distrib')

lemma smoothed_recent_average:
  assumes "w \<noteq> []" and "0 \<le> c"
  shows "smoothed fl w c = Inr (recent_average fl w c)"
proof (cases "c < int (length w)")
  case True
  show ?thesis
  proof (cases "c = 0")
    case True
    then show ?thesis using assms by (simp add: smoothed_def recent_average_def)
  next
    case False
    with assms have pos: "0 < c" by simp
    have "length (most_recent (nat c) w) = nat c"
      using pos True by (simp add: most_recent_def)
    then show ?thesis
      using pos True slice_from_neg [OF pos True]
      by (simp add: smoothed_def recent_average_def div_int_def average_def)
  qed
next
  case False
  then show ?thesis using assms
    by (simp add: smoothed_def recent_average_def div_int_def average_def)
qed

lemma length_slice_tl: "length (slice_from (w @ [x]) 1) = length w"
  by (simp add: slice_from_1)

lemma smoothed_no_error:
  "w \<noteq> [] \<Longrightarrow> \<exists>e. smoothed fl w c = Inr e"
  by (simp add: smoothed_def div_int_def)

lemma estimate_time_left:
  "estimate fl curr_time start curr_n total_n p = (Inr (pc, est), p') \<Longrightarrow>
   last_percent_time_left p' = est \<and> last_percent p' = Some pc \<and> \<not> is_first_print p' \<and>
   percent fl curr_n total_n = Inr pc"
  by (auto simp: estimate_def Let_def split: sum.splits if_splits)

lemma estimate_same_percent:
  assumes "\<not> is_first_print p" and "last_percent p = Some pc"
    and "percent fl curr_n total_n = Inr pc"
  shows "estimate fl curr_time start curr_n total_n p = (Inr (pc, last_percent_time_left p), p)"
  using assms by (simp add: estimate_def)

lemma print_progress_estimate:
  "print_progress fl cfg curr_time start curr_n total_n msg p = (Inr out, p') \<Longrightarrow>
   \<exists>pc est q. estimate fl curr_time start curr_n total_n p = (Inr (pc, est), q) \<and>
     p' = q\<lparr>last_printed_line := Some (progress_text fl curr_n total_n pc est msg)\<rparr>"
  by (auto simp: print_progress_def Let_def split: prod.splits sum.splits)

lemma estimate_window_length:
  "estimate fl curr_time start curr_n total_n p = (r, p') \<Longrightarrow>
   length (est_time_lefts p') = length (est_time_lefts p)"
  by (auto simp: estimate_def Let_def length_slice_tl split: sum.splits if_splits)

lemma print_progress_window_length:
  "print_progress fl cfg curr_time start curr_n total_n msg p = (r, p') \<Longrightarrow>
   length (est_time_lefts p') = length (est_time_lefts p)"
  by (auto simp: print_progress_def Let_def split: prod.splits sum.splits
           dest: estimate_window_length)

lemma print_done_window_length:
  "print_done fl cfg now msg p = (Inr out, p') \<Longrightarrow> length (est_time_lefts p') = 3"
  by (auto simp: print_done_def split: sum.splits)

lemma percent_advanced:
  assumes "\<not> is_first_print p"
    and "last_percent p = Some lp"
    and "last_percent_print_time p = Some t"
    and "est_time_lefts p \<noteq> []"
    and "0 < total_n"
    and "percent fl curr_n total_n = Inr pc"
    and "lp < pc"
    and "raw = f_mul fl (f_div fl (f_sub fl curr_time t) (f_int fl (pc - lp)))
                 (f_int fl (100 - pc))"
    and "w = tl (est_time_lefts p) @ [raw]"
    and "c = f_round fl (f_truediv fl (100 - pc) (pc - lp))"
    and "0 \<le> c"
  shows "estimate fl curr_time start curr_n total_n p =
           (Inr (pc, Some (recent_average fl w c)),
            p\<lparr>est_time_lefts := w,
              last_percent_time_left := Some (recent_average fl w c),
              last_percent_print_time := Some curr_time,
              last_percent := Some pc\<rparr>) \<and>
         print_progress fl cfg curr_time start curr_n total_n msg p =
           (Inr (log cfg (progress_text fl curr_n total_n pc (Some (recent_average fl w c)) msg)
                   (kw\<lparr>kw_end := [], kw_start := CLEAR_LINE cfg, inform := True\<rparr>)),
            p\<lparr>est_time_lefts := w,
              last_percent_time_left := Some (recent_average fl w c),
              last_percent_print_time := Some curr_time,
              last_percent := Some pc,
              last_printed_line :=
                Some (progress_text fl curr_n total_n pc (Some (recent_average fl w c)) msg)\<rparr>)"
proof -
  have ne: "pc - lp \<noteq> 0" using assms(7) by simp
  have bad: "bad_est_time_left fl curr_time pc p = Inr raw"
    using assms(2,3,8) ne by (simp add: bad_est_time_left_def div_int_def)
  have win: "slice_from (est_time_lefts p @ [raw]) 1 = w"
    using assms(4,9) by (simp add: slice_from_1)
  have wne: "w \<noteq> []" using assms(9) by simp
  have ch: "chunk_left fl pc (p\<lparr>est_time_lefts := w\<rparr>) = Inr c"
    using assms(2,10) ne by (simp add: chunk_left_def truediv_def Let_def)
  have sm: "smoothed fl w c = Inr (recent_average fl w c)"
    using wne assms(11) by (rule smoothed_recent_average)
  have est: "estimate fl curr_time start curr_n total_n p =
           (Inr (pc, Some (recent_average fl w c)),
            p\<lparr>est_time_lefts := w,
              last_percent_time_left := Some (recent_average fl w c),
              last_percent_print_time := Some curr_time,
              last_percent := Some pc\<rparr>)"
    using assms(1,2,6,7) bad win ch sm by (simp add: estimate_def Let_def)
  show ?thesis using est by (simp add: print_progress_def Let_def)
qed

subsection \<open>Runs of calls\<close>

lemma consistent_init: "consistent (Printer_init fl)"
  by (simp add: consistent_def Printer_init_def)

lemma estimate_consistent:
  assumes "consistent p" and "total_n \<noteq> 0"
  shows "\<exists>pc est p'. estimate fl curr_time start curr_n total_n p = (Inr (pc, est), p') \<and>
           consistent p'"
proof -
  obtain pc where pc: "percent fl curr_n total_n = Inr pc"
    using assms(2) by (simp add: percent_def truediv_def)
  show ?thesis
  proof (cases "is_first_print p")
    case True
    then show ?thesis using pc assms(1) by (simp add: estimate_def Let_def consistent_def)
  next
    case False
    then obtain lp t s where st: "last_percent p = Some lp" "last_percent_print_time p = Some t"
      "start_time p = Some s" and ne: "est_time_lefts p \<noteq> []"
      using assms(1) by (auto simp: consistent_def)
    show ?thesis
    proof (cases "lp = pc")
      case True
      then show ?thesis using False pc st assms(1)
        by (simp add: estimate_def consistent_def)
    next
      case neq: False
      then have d: "pc - lp \<noteq> 0" by simp
      obtain raw where bad: "bad_est_time_left fl curr_time pc p = Inr raw"
        using st d by (simp add: bad_est_time_left_def div_int_def)
      let ?w = "slice_from (est_time_lefts p @ [raw]) 1"
      have wne: "?w \<noteq> []" using ne by (simp add: slice_from_1)
      obtain c where ch: "chunk_left fl pc (p\<lparr>est_time_lefts := ?w\<rparr>) = Inr c"
        using st d by (simp add: chunk_left_def truediv_def Let_def)
      obtain e where sm: "smoothed fl ?w c = Inr e"
        using smoothed_no_error [OF wne] by blast
      show ?thesis using False pc st neq bad ch sm wne
        by (simp add: estimate_def Let_def consistent_def)
    qed
  qed
qed

lemma print_progress_consistent:
  assumes "consistent p" and "total_n \<noteq> 0"
  shows "\<exists>out p'. print_progress fl cfg curr_time start curr_n total_n msg p = (Inr out, p') \<and>
           consistent p'"
proof -
  obtain pc est q where "estimate fl curr_time start curr_n total_n p = (Inr (pc, est), q)"
    and "consistent q"
    using estimate_consistent [OF assms] by blast
  then show ?thesis by (simp add: print_progress_def Let_def consistent_def)
qed

lemma print_done_consistent:
  assumes "consistent p"
  shows "\<exists>out p'. print_done fl cfg now msg p = (Inr out, p') \<and> consistent p'"
proof -
  have "\<exists>dt. done_text fl now msg p = Inr dt"
    using assms by (cases msg) (auto simp: done_text_def truthy_def consistent_def)
  then show ?thesis by (auto simp: print_done_def consistent_def)
qed

lemma calls_consistent:
  "consistent p \<Longrightarrow> \<forall>c\<in>set cs. positive_total c \<Longrightarrow>
   \<exists>p'. calls fl cfg cs p = Inr p' \<and> consistent p'"
proof (induction cs arbitrary: p)
  case Nil
  then show ?case by simp
next
  case (Cons c cs)
  show ?case
  proof (cases c)
    case (Update curr_time start curr_n total_n msg)
    with Cons.prems have "total_n \<noteq> 0" by simp
    then obtain out q where
      "print_progress fl cfg curr_time start curr_n total_n msg p = (Inr out, q)" "consistent q"
      using print_progress_consistent [OF Cons.prems(1)] by blast
    then show ?thesis using Update Cons.IH [of q] Cons.prems(2) by simp
  next
    case (Finish now msg)
    obtain out q where "print_done fl cfg now msg p = (Inr out, q)" "consistent q"
      using print_done_consistent [OF Cons.prems(1)] by blast
    then show ?thesis using Finish Cons.IH [of q] Cons.prems(2) by simp
  qed
qed

lemma print_progress_total:
  "print_progress fl cfg curr_time start curr_n total_n msg p = (Inr out, p') \<Longrightarrow> total_n \<noteq> 0"
  by (auto simp: print_progress_def estimate_def percent_def truediv_def)

lemma calls_keep_consistent:
  "calls fl cfg cs p = Inr p' \<Longrightarrow> consistent p \<Longrightarrow> consistent p'"
proof (induction cs arbitrary: p)
  case Nil
  then show ?case by simp
next
  case (Cons c cs)
  show ?case
  proof (cases c)
    case (Update curr_time start curr_n total_n msg)
    then obtain out q where
      q: "print_progress fl cfg curr_time start curr_n total_n msg p = (Inr out, q)"
      and r: "calls fl cfg cs q = Inr p'"
      using Cons.prems(1) by (auto split: prod.splits sum.splits)
    have "total_n \<noteq> 0" using q by (rule print_progress_total)
    then have "consistent q"
      using print_progress_consistent [OF Cons.prems(2), where total_n = total_n
          and fl = fl and cfg = cfg and curr_time = curr_time and start = start
          and curr_n = curr_n and msg = msg] q
      by auto
    then show ?thesis using Cons.IH [OF r] by simp
  next
    case (Finish now msg)
    then obtain out q where q: "print_done fl cfg now msg p = (Inr out, q)"
      and r: "calls fl cfg cs q = Inr p'"
      using Cons.prems(1) by (auto split: prod.splits sum.splits)
    have "consistent q"
      using print_done_consistent [OF Cons.prems(2), where fl = fl and cfg = cfg
          and now = now and msg = msg] q
      by auto
    then show ?thesis using Cons.IH [OF r] by simp
  qed
qed

lemma calls_window_length:
  "calls fl cfg cs p = Inr p' \<Longrightarrow>
   length (est_time_lefts p') = (if list_ex is_finish cs then 3 else length (est_time_lefts p))"
proof (induction cs arbitrary: p)
  case Nil
  then show ?case by simp
next
  case (Cons c cs)
  show ?case
  proof (cases c)
    case (Update curr_time start curr_n total_n msg)
    then obtain out q where
      q: "print_progress fl cfg curr_time start curr_n total_n msg p = (Inr out, q)"
      and r: "calls fl cfg cs q = Inr p'"
      using Cons.prems by (auto split: prod.splits sum.splits)
    have "length (est_time_lefts q) = length (est_time_lefts p)"
      using q by (rule print_progress_window_length)
    then show ?thesis using Cons.IH [OF r] Update by simp
  next
    case (Finish now msg)
    then obtain out q where q: "print_done fl cfg now msg p = (Inr out, q)"
      and r: "calls fl cfg cs q = Inr p'"
      using Cons.prems by (auto split: prod.splits sum.splits)
    have "length (est_time_lefts q) = 3"
      using q by (rule print_done_window_length)
    then show ?thesis using Cons.IH [OF r] Finish by simp
  qed
qed

subsection \<open>Evaluation in exact arithmetic\<close>

lemma floor_minus_one_rat: "\<lfloor>- 1 :: rat\<rfloor> = - 1"
  using floor_of_int [of "- 1", where ?'a = rat] by simp

lemmas exact_simps = exact_def zero_def percent_def truediv_def div_int_def round_half_even_def
  Let_def floor_minus_one_rat

lemma calls_p100: "calls exact cfg0 [Update (Num 10) (Num 10) 100 100 None] (Printer_init exact) = Inr p100"
  by (simp add: print_progress_def estimate_def Printer_init_def p100_def exact_simps
      progress_text_def nonzero_def truthy_def)

lemma calls_p0: "calls exact cfg0 [Update (Num 0) (Num 0) 0 100 None] (Printer_init exact) = Inr p0"
  by (simp add: print_progress_def estimate_def Printer_init_def p0_def exact_simps
      progress_text_def nonzero_def truthy_def)

lemma chunk_left_p100: "chunk_left exact 200 p100 = Inr (- 1)"
  by (simp add: chunk_left_def p100_def exact_simps)

lemma estimate_p100: "estimate exact (Num 110) (Num 110) 200 100 p100 =
   (Inr (200, Some (Num 100)),
    p100\<lparr>est_time_lefts := [Num 0, Num 0, Num 0, Num 0, Num (- 100)],
         last_percent_time_left := Some (Num 100),
         last_percent_print_time := Some (Num 110),
         last_percent := Some 200\<rparr>)"
  by (simp add: estimate_def bad_est_time_left_def chunk_left_def smoothed_def slice_from_def
      p100_def exact_simps)

lemma recent_average_p100: "recent_average exact [Num 0, Num 0, Num 0, Num 0, Num (- 100)] (- 1) = Num 0"
  by (simp add: recent_average_def average_def most_recent_def exact_simps)

lemma averages_p100:
  "average exact (most_recent 1 [Num 0, Num 0, Num 0, Num 0, Num (- 100)]) = Num (- 100)"
  "average exact (most_recent 2 [Num 0, Num 0, Num 0, Num 0, Num (- 100)]) = Num (- 50)"
  "average exact (most_recent 3 [Num 0, Num 0, Num 0, Num 0, Num (- 100)]) = Num (- 100 / 3)"
  "average exact (most_recent 4 [Num 0, Num 0, Num 0, Num 0, Num (- 100)]) = Num (- 25)"
  "average exact (most_recent 5 [Num 0, Num 0, Num 0, Num 0, Num (- 100)]) = Num (- 20)"
  by (simp_all add: average_def most_recent_def exact_simps)

lemma round_half_even_nonneg: "0 \<le> x \<Longrightarrow> 0 \<le> round_half_even x"
  by (simp add: round_half_even_def Let_def)

lemma chunk_left_exact_nonneg:
  assumes "last_percent p = Some lp" and "lp < pc" and "pc \<le> 100"
  shows "\<exists>c. chunk_left exact pc p = Inr c \<and> 0 \<le> c"
proof -
  have "(0::rat) \<le> of_int (100 - pc) / of_int (pc - lp)"
    using assms(2,3) by (intro divide_nonneg_pos) simp_all
  then have "0 \<le> round_half_even (of_int (100 - pc) / of_int (pc - lp))"
    by (rule round_half_even_nonneg)
  then show ?thesis
    using assms(1,2) by (simp add: chunk_left_def truediv_def exact_def Let_def)
qed

subsection \<open>A total of zero\<close>

text \<open>
  Claim C9. For every \<^verbatim>\<open>curr\<close> and \<^verbatim>\<open>msg\<close>, \<^verbatim>\<open>print_progress(curr, 0, msg)\<close> raises
  \<^verbatim>\<open>ZeroDivisionError\<close> at line 214 and leaves every field of the printer as it was.
\<close>

theorem print_progress_zero_total:
  "print_progress fl cfg curr_time start curr_n 0 msg p = (Inl ZeroDivisionError, p)"
  by (simp add: print_progress_def estimate_def percent_def truediv_def)

theorem print_progress_zero_total_witness:
  "print_progress exact cfg0 (Num 5) (Num 5) 7 0 None p0 = (Inl ZeroDivisionError, p0)"
  by (rule print_progress_zero_total)

subsection \<open>The same percent twice\<close>

text \<open>
  Claim C6. After a call of \<^verbatim>\<open>print_progress\<close> that printed percent \<open>pc\<close>, a second call
  whose arguments give the same percent reports the estimate of the first call (the one
  kept in \<^verbatim>\<open>last_percent_time_left\<close>) and computes nothing: no field changes but the
  printed line. When the first call is the first of a printer, that estimate is
  \<^verbatim>\<open>float("inf")\<close>, and the text is the one with a time left, infinity not being equal
  to zero.
\<close>

theorem print_progress_same_percent:
  assumes "print_progress fl cfg t1 s1 c1 n1 m1 p = (Inr out1, p1)"
    and "percent fl c1 n1 = Inr pc"
    and "percent fl c2 n2 = Inr pc"
  shows "last_printed_line p1 = Some (progress_text fl c1 n1 pc (last_percent_time_left p1) m1) \<and>
         estimate fl t2 s2 c2 n2 p1 = (Inr (pc, last_percent_time_left p1), p1) \<and>
         print_progress fl cfg t2 s2 c2 n2 m2 p1 =
           (Inr (log cfg (progress_text fl c2 n2 pc (last_percent_time_left p1) m2)
                   (kw\<lparr>kw_end := [], kw_start := CLEAR_LINE cfg, inform := True\<rparr>)),
            p1\<lparr>last_printed_line :=
                 Some (progress_text fl c2 n2 pc (last_percent_time_left p1) m2)\<rparr>) \<and>
         (is_first_print p \<longrightarrow> last_percent_time_left p1 = Some (f_inf fl)) \<and>
         (is_first_print p \<longrightarrow> \<not> f_eq fl (f_inf fl) (zero fl) \<longrightarrow>
            fst (the (last_printed_line p1)) = PROGRESS_WITH_TIME_LEFT c1 n1 pc (Some (f_inf fl)))"
proof -
  obtain pc' est q where e: "estimate fl t1 s1 c1 n1 p = (Inr (pc', est), q)"
    and p1: "p1 = q\<lparr>last_printed_line := Some (progress_text fl c1 n1 pc' est m1)\<rparr>"
    using print_progress_estimate [OF assms(1)] by blast
  have q: "last_percent_time_left q = est" "last_percent q = Some pc'" "\<not> is_first_print q"
    "percent fl c1 n1 = Inr pc'"
    using estimate_time_left [OF e] by simp_all
  have pc: "pc' = pc" using q(4) assms(2) by simp
  have a: "last_printed_line p1 = Some (progress_text fl c1 n1 pc (last_percent_time_left p1) m1)"
    using p1 q pc by simp
  have b: "estimate fl t2 s2 c2 n2 p1 = (Inr (pc, last_percent_time_left p1), p1)"
    using q pc p1 assms(3) by (intro estimate_same_percent) simp_all
  have c: "print_progress fl cfg t2 s2 c2 n2 m2 p1 =
           (Inr (log cfg (progress_text fl c2 n2 pc (last_percent_time_left p1) m2)
                   (kw\<lparr>kw_end := [], kw_start := CLEAR_LINE cfg, inform := True\<rparr>)),
            p1\<lparr>last_printed_line :=
                 Some (progress_text fl c2 n2 pc (last_percent_time_left p1) m2)\<rparr>)"
    using b by (simp add: print_progress_def Let_def)
  have d: "is_first_print p \<longrightarrow> last_percent_time_left p1 = Some (f_inf fl)"
    using e p1 assms(2) by (auto simp: estimate_def Let_def)
  have f: "is_first_print p \<longrightarrow> \<not> f_eq fl (f_inf fl) (zero fl) \<longrightarrow>
            fst (the (last_printed_line p1)) = PROGRESS_WITH_TIME_LEFT c1 n1 pc (Some (f_inf fl))"
    using a d by (simp add: progress_text_def nonzero_def)
  show ?thesis using a b c d f by simp
qed

text \<open>
  \<^verbatim>\<open>print_progress(25, 100)\<close> twice on a fresh printer, at times 10 and 20.
\<close>

theorem print_progress_same_percent_witness:
  "print_progress exact cfg0 (Num 10) (Num 10) 25 100 None (Printer_init exact) =
     (Inr [Printed Stdout [CHR 0x0D] (Some ''>>>'') (PROGRESS_WITH_TIME_LEFT 25 100 25 (Some Inf), None) []],
      p25) \<and>
   percent exact 25 100 = Inr 25 \<and>
   estimate exact (Num 20) (Num 20) 25 100 p25 = (Inr (25, Some Inf), p25) \<and>
   print_progress exact cfg0 (Num 20) (Num 20) 25 100 None p25 =
     (Inr [Printed Stdout [CHR 0x0D] (Some ''>>>'') (PROGRESS_WITH_TIME_LEFT 25 100 25 (Some Inf), None) []],
      p25)"
proof -
  have h1: "print_progress exact cfg0 (Num 10) (Num 10) 25 100 None (Printer_init exact) =
     (Inr [Printed Stdout [CHR 0x0D] (Some ''>>>'') (PROGRESS_WITH_TIME_LEFT 25 100 25 (Some Inf), None) []],
      p25)"
    by (simp add: print_progress_def estimate_def Printer_init_def p25_def exact_simps
      progress_text_def nonzero_def truthy_def log_def kw_def cfg0_def)
  have h2: "percent exact 25 100 = Inr 25" by (simp add: exact_simps)
  have t: "progress_text exact 25 100 25 (Some Inf) None = (PROGRESS_WITH_TIME_LEFT 25 100 25 (Some Inf), None)"
    by (simp add: progress_text_def nonzero_def truthy_def exact_simps)
  have l: "last_percent_time_left p25 = Some Inf" by (simp add: p25_def)
  have p: "p25\<lparr>last_printed_line := Some (PROGRESS_WITH_TIME_LEFT 25 100 25 (Some Inf), None)\<rparr> = p25"
    by (simp add: p25_def)
  show ?thesis
    using h1 h2 print_progress_same_percent [OF h1 h2 h2, where ?t2.0 = "Num 20" and ?s2.0 = "Num 20" and ?m2.0 = None]
    by (simp add: t l p log_def kw_def cfg0_def)
qed

subsection \<open>A percent that has advanced\<close>

text \<open>
  Claim C4 says that on every call that is not the first, with \<^verbatim>\<open>total > 0\<close> and a
  percent above the last one, the estimate reported is \<open>recent_average\<close> of the new
  window and \<^verbatim>\<open>chunk_left\<close>. Nothing keeps \<^verbatim>\<open>curr\<close> below \<^verbatim>\<open>total\<close>: after
  \<^verbatim>\<open>print_progress(100, 100)\<close> at time 10, the call \<^verbatim>\<open>print_progress(200, 100)\<close> at time
  110 has \<^verbatim>\<open>chunk_left = -1\<close>, the slice \<^verbatim>\<open>est_time_lefts[1:]\<close> is summed and divided by
  \<open>-1\<close>, and the estimate is 100: not 0, and not the average of the most recent \<open>k\<close>
  samples for any \<open>k\<close> from 1 to 5.
\<close>

theorem print_progress_over_100_counterexample:
  "calls exact cfg0 [Update (Num 10) (Num 10) 100 100 None] (Printer_init exact) = Inr p100 \<and>
   chunk_left exact 200 p100 = Inr (- 1) \<and>
   estimate exact (Num 110) (Num 110) 200 100 p100 =
     (Inr (200, Some (Num 100)),
      p100\<lparr>est_time_lefts := [Num 0, Num 0, Num 0, Num 0, Num (- 100)],
           last_percent_time_left := Some (Num 100),
           last_percent_print_time := Some (Num 110),
           last_percent := Some 200\<rparr>) \<and>
   Num 100 \<noteq> recent_average exact [Num 0, Num 0, Num 0, Num 0, Num (- 100)] (- 1) \<and>
   Num 100 \<noteq> zero exact \<and>
   Num 100 \<noteq> average exact (most_recent 1 [Num 0, Num 0, Num 0, Num 0, Num (- 100)]) \<and>
   Num 100 \<noteq> average exact (most_recent 2 [Num 0, Num 0, Num 0, Num 0, Num (- 100)]) \<and>
   Num 100 \<noteq> average exact (most_recent 3 [Num 0, Num 0, Num 0, Num 0, Num (- 100)]) \<and>
   Num 100 \<noteq> average exact (most_recent 4 [Num 0, Num 0, Num 0, Num 0, Num (- 100)]) \<and>
   Num 100 \<noteq> average exact (most_recent 5 [Num 0, Num 0, Num 0, Num 0, Num (- 100)])"
proof -
  have z: "zero exact = Num 0" by (simp add: exact_simps)
  show ?thesis
    unfolding calls_p100 chunk_left_p100 estimate_p100 recent_average_p100 averages_p100 z by simp
qed

text \<open>
  Claim C4, amended. On a call of \<^verbatim>\<open>print_progress\<close> that is not the first (on a
  printer reached from a fresh one by calls of \<^verbatim>\<open>print_progress\<close> and \<^verbatim>\<open>print_done\<close>), with
  \<^verbatim>\<open>total > 0\<close>, a percent \<open>pc\<close> above the last percent \<open>lp\<close> and a \<^verbatim>\<open>chunk_left\<close> that
  is not negative: the sample \<^verbatim>\<open>(now - last_percent_print_time) / (pc - lp) * (100 - pc)\<close>
  is appended to the window and the oldest entry dropped; with
  \<^verbatim>\<open>chunk_left = round((100 - pc) / (pc - lp))\<close>, the estimate reported is the average of
  the most recent \<^verbatim>\<open>chunk_left\<close> samples when \<^verbatim>\<open>chunk_left\<close> is smaller than the length
  of the window (0 when \<^verbatim>\<open>chunk_left\<close> is 0) and the average of the whole window
  otherwise.
\<close>

theorem print_progress_percent_advanced:
  assumes "calls fl cfg cs (Printer_init fl) = Inr p"
    and "\<not> is_first_print p"
    and "last_percent p = Some lp"
    and "last_percent_print_time p = Some t"
    and "0 < total_n"
    and "percent fl curr_n total_n = Inr pc"
    and "lp < pc"
    and "raw = f_mul fl (f_div fl (f_sub fl curr_time t) (f_int fl (pc - lp)))
                 (f_int fl (100 - pc))"
    and "w = tl (est_time_lefts p) @ [raw]"
    and "c = f_round fl (f_truediv fl (100 - pc) (pc - lp))"
    and "0 \<le> c"
  shows "est_time_lefts p \<noteq> [] \<and>
         estimate fl curr_time start curr_n total_n p =
           (Inr (pc, Some (recent_average fl w c)),
            p\<lparr>est_time_lefts := w,
              last_percent_time_left := Some (recent_average fl w c),
              last_percent_print_time := Some curr_time,
              last_percent := Some pc\<rparr>) \<and>
         print_progress fl cfg curr_time start curr_n total_n msg p =
           (Inr (log cfg (progress_text fl curr_n total_n pc (Some (recent_average fl w c)) msg)
                   (kw\<lparr>kw_end := [], kw_start := CLEAR_LINE cfg, inform := True\<rparr>)),
            p\<lparr>est_time_lefts := w,
              last_percent_time_left := Some (recent_average fl w c),
              last_percent_print_time := Some curr_time,
              last_percent := Some pc,
              last_printed_line :=
                Some (progress_text fl curr_n total_n pc (Some (recent_average fl w c)) msg)\<rparr>)"
proof -
  have "consistent p"
    using assms(1) consistent_init by (rule calls_keep_consistent)
  then have ne: "est_time_lefts p \<noteq> []" by (simp add: consistent_def)
  show ?thesis
    using ne percent_advanced [OF assms(2) assms(3) assms(4) ne assms(5) assms(6) assms(7)
        assms(8) assms(9) assms(10) assms(11)]
    by simp
qed

text \<open>
  \<^verbatim>\<open>print_progress(25, 100)\<close> at time 50 after \<^verbatim>\<open>print_progress(0, 100)\<close> at time 0: the
  sample is 150, \<^verbatim>\<open>chunk_left\<close> is 3 and the estimate is 150 / 3.
\<close>

theorem print_progress_percent_advanced_witness:
  "calls exact cfg0 [Update (Num 0) (Num 0) 0 100 None] (Printer_init exact) = Inr p0 \<and>
   \<not> is_first_print p0 \<and> last_percent p0 = Some 0 \<and> percent exact 25 100 = Inr 25 \<and>
   f_round exact (f_truediv exact (100 - 25) (25 - 0)) = 3 \<and>
   recent_average exact [Num 0, Num 0, Num 0, Num 0, Num 150] 3 = Num 50 \<and>
   estimate exact (Num 50) (Num 50) 25 100 p0 =
     (Inr (25, Some (Num 50)),
      p0\<lparr>est_time_lefts := [Num 0, Num 0, Num 0, Num 0, Num 150],
         last_percent_time_left := Some (Num 50),
         last_percent_print_time := Some (Num 50),
         last_percent := Some 25\<rparr>)"
proof -
  have h0: "calls exact cfg0 [Update (Num 0) (Num 0) 0 100 None] (Printer_init exact) = Inr p0"
    by (rule calls_p0)
  have h1: "\<not> is_first_print p0" "last_percent p0 = Some 0"
    "last_percent_print_time p0 = Some (Num 0)"
    by (simp_all add: p0_def)
  have h2: "percent exact 25 100 = Inr 25" by (simp add: exact_simps)
  have h3: "Num 150 = f_mul exact (f_div exact (f_sub exact (Num 50) (Num 0)) (f_int exact (25 - 0)))
                 (f_int exact (100 - 25))"
    by (simp add: exact_simps)
  have h4: "[Num 0, Num 0, Num 0, Num 0, Num 150] = tl (est_time_lefts p0) @ [Num 150]"
    by (simp add: p0_def)
  have h5: "3 = f_round exact (f_truediv exact (100 - 25) (25 - 0))"
    by (simp add: exact_simps)
  have h6: "recent_average exact [Num 0, Num 0, Num 0, Num 0, Num 150] 3 = Num 50"
    by (simp add: recent_average_def average_def most_recent_def exact_simps)
  show ?thesis
    using h0 h1 h2 h5 h6
      print_progress_percent_advanced [OF h0 h1(1) h1(2) h1(3) _ h2 _ h3 h4 h5,
        where start = "Num 50" and msg = None]
    by simp
qed

subsection \<open>No division by zero\<close>

text \<open>
  Claim C7. Whatever the calls of \<^verbatim>\<open>print_progress\<close> with \<^verbatim>\<open>total > 0\<close> and of
  \<^verbatim>\<open>print_done\<close> made on a fresh printer, none raises: every divisor (the total, the
  difference of the percents, \<^verbatim>\<open>chunk_left\<close>, the length of the window) is not zero
  where it is reached. In particular \<^verbatim>\<open>print_progress(0, 100)\<close>,
  \<^verbatim>\<open>print_progress(50, 100)\<close>, \<^verbatim>\<open>print_progress(100, 100)\<close> and \<^verbatim>\<open>print_done()\<close> all
  return, and the percent is 100 before \<^verbatim>\<open>print_done\<close> (for an arithmetic in which
  \<^verbatim>\<open>floor(100 / 100 * 100)\<close> is 100).
\<close>

theorem calls_never_divide_by_zero:
  "((\<forall>c\<in>set cs. positive_total c) \<longrightarrow>
      (\<exists>p'. calls fl cfg cs (Printer_init fl) = Inr p')) \<and>
   (percent fl 100 100 = Inr 100 \<longrightarrow>
      (\<exists>p' p''.
         calls fl cfg [Update t0 s0 0 100 m0, Update t1 s1 50 100 m1, Update t2 s2 100 100 m2]
           (Printer_init fl) = Inr p' \<and>
         last_percent p' = Some 100 \<and>
         calls fl cfg [Finish t3 m3] p' = Inr p''))"
proof -
  have a: "(\<forall>c\<in>set cs. positive_total c) \<longrightarrow>
      (\<exists>p'. calls fl cfg cs (Printer_init fl) = Inr p')"
    using calls_consistent [OF consistent_init] by blast
  let ?cs = "[Update t0 s0 0 100 m0, Update t1 s1 50 100 m1, Update t2 s2 100 100 m2]"
  have b: "\<exists>p' p''. calls fl cfg ?cs (Printer_init fl) = Inr p' \<and>
         last_percent p' = Some 100 \<and> calls fl cfg [Finish t3 m3] p' = Inr p''"
    if h: "percent fl 100 100 = Inr 100"
  proof -
    obtain q0 where q0: "calls fl cfg [Update t0 s0 0 100 m0, Update t1 s1 50 100 m1]
        (Printer_init fl) = Inr q0" "consistent q0"
      using calls_consistent [OF consistent_init,
          where cs = "[Update t0 s0 0 100 m0, Update t1 s1 50 100 m1]" and fl = fl and cfg = cfg]
      by auto
    obtain out p' where p': "print_progress fl cfg t2 s2 100 100 m2 q0 = (Inr out, p')"
      "consistent p'"
      using print_progress_consistent [OF q0(2), where total_n = 100 and curr_n = 100
          and fl = fl and cfg = cfg and curr_time = t2 and start = s2 and msg = m2]
      by auto
    obtain pc est q where e: "estimate fl t2 s2 100 100 q0 = (Inr (pc, est), q)"
      and pq: "p' = q\<lparr>last_printed_line := Some (progress_text fl 100 100 pc est m2)\<rparr>"
      using print_progress_estimate [OF p'(1)] by blast
    have lp: "last_percent p' = Some 100"
      using estimate_time_left [OF e] pq h by simp
    obtain out' p'' where d: "print_done fl cfg t3 m3 p' = (Inr out', p'')"
      using print_done_consistent [OF p'(2), where fl = fl and cfg = cfg and now = t3
          and msg = m3]
      by blast
    have c3: "calls fl cfg ?cs (Printer_init fl) = Inr p'"
      using q0(1) p'(1) by (auto split: prod.splits sum.splits)
    show ?thesis using c3 lp d by simp
  qed
  show ?thesis using a b by blast
qed

theorem calls_never_divide_by_zero_witness:
  "positive_total (Update (Num 0) (Num 0) 0 100 None) \<and>
   percent exact 100 100 = Inr 100 \<and>
   (\<exists>p' p''.
      calls exact cfg0
        [Update (Num 0) (Num 0) 0 100 None, Update (Num 50) (Num 50) 50 100 None,
         Update (Num 100) (Num 100) 100 100 None] (Printer_init exact) = Inr p' \<and>
      last_percent p' = Some 100 \<and>
      calls exact cfg0 [Finish (Num 101) None] p' = Inr p'')"
proof -
  have h: "percent exact 100 100 = Inr 100" by (simp add: exact_simps)
  show ?thesis
    using h calls_never_divide_by_zero [where fl = exact and cfg = cfg0 and cs = "[]"
        and ?t0.0 = "Num 0" and ?s0.0 = "Num 0" and ?m0.0 = None
        and ?t1.0 = "Num 50" and ?s1.0 = "Num 50" and ?m1.0 = None
        and ?t2.0 = "Num 100" and ?s2.0 = "Num 100" and ?m2.0 = None
        and ?t3.0 = "Num 101" and ?m3.0 = None]
    by simp
qed

subsection \<open>The window after print_done\<close>

text \<open>
  Claim C3 says that \<^verbatim>\<open>print_done\<close> puts every field back to its value in a fresh
  printer, the window to 5 slots. Line 268 assigns a window of 3 slots, where line 209
  builds one of 5: on a fresh printer, \<^verbatim>\<open>print_done()\<close> changes the window, and only the
  window.
\<close>

theorem print_done_window_not_restored:
  "print_done fl cfg now None (Printer_init fl) =
     (Inr (log cfg DONE (kw\<lparr>normal := True\<rparr>)),
      (Printer_init fl)\<lparr>est_time_lefts := [zero fl, zero fl, zero fl]\<rparr>) \<and>
   est_time_lefts (snd (print_done fl cfg now None (Printer_init fl))) = [zero fl, zero fl, zero fl] \<and>
   est_time_lefts (Printer_init fl) = [zero fl, zero fl, zero fl, zero fl, zero fl] \<and>
   snd (print_done fl cfg now None (Printer_init fl)) \<noteq> Printer_init fl"
proof -
  have a: "print_done fl cfg now None (Printer_init fl) =
     (Inr (log cfg DONE (kw\<lparr>normal := True\<rparr>)),
      (Printer_init fl)\<lparr>est_time_lefts := [zero fl, zero fl, zero fl]\<rparr>)"
    by (simp add: print_done_def done_text_def truthy_def Printer_init_def)
  have b: "est_time_lefts (Printer_init fl) = [zero fl, zero fl, zero fl, zero fl, zero fl]"
    by (simp add: Printer_init_def)
  have "length (est_time_lefts (snd (print_done fl cfg now None (Printer_init fl))))
      \<noteq> length (est_time_lefts (Printer_init fl))"
    using a b by simp
  then have c: "snd (print_done fl cfg now None (Printer_init fl)) \<noteq> Printer_init fl"
    by metis
  show ?thesis using a b c by simp
qed

theorem print_done_window_not_restored_witness:
  "est_time_lefts (snd (print_done exact cfg0 (Num 1) None (Printer_init exact))) =
     [Num 0, Num 0, Num 0] \<and>
   est_time_lefts (Printer_init exact) = [Num 0, Num 0, Num 0, Num 0, Num 0]"
  using print_done_window_not_restored [where fl = exact and cfg = cfg0 and now = "Num 1"]
  by (simp add: exact_simps)

text \<open>
  Claim C10. A fresh printer has a window of 5 entries. After \<^verbatim>\<open>print_done\<close> the
  window has 3 entries; every call of \<^verbatim>\<open>print_progress\<close> keeps the length of the window;
  so after any calls on a fresh printer the window has 3 entries when \<^verbatim>\<open>print_done\<close> is
  among them and 5 otherwise, and on a window of 3 entries the average of the whole
  window is a sum divided by 3.
\<close>

theorem window_three_after_print_done:
  "length (est_time_lefts (Printer_init fl)) = 5 \<and>
   (print_done fl cfg now msg p = (Inr out, p') \<longrightarrow> length (est_time_lefts p') = 3) \<and>
   (print_progress fl cfg curr_time start curr_n total_n msg' q = (r, q') \<longrightarrow>
      length (est_time_lefts q') = length (est_time_lefts q)) \<and>
   (calls fl cfg cs (Printer_init fl) = Inr p'' \<longrightarrow>
      length (est_time_lefts p'') = (if list_ex is_finish cs then 3 else 5)) \<and>
   (length w = 3 \<longrightarrow> 3 \<le> c \<longrightarrow>
      smoothed fl w c = Inr (f_div fl (f_sum fl w) (f_int fl 3)))"
proof -
  have a: "length (est_time_lefts (Printer_init fl)) = 5" by (simp add: Printer_init_def)
  have b: "print_done fl cfg now msg p = (Inr out, p') \<longrightarrow> length (est_time_lefts p') = 3"
    by (rule impI) (rule print_done_window_length)
  have c: "print_progress fl cfg curr_time start curr_n total_n msg' q = (r, q') \<longrightarrow>
      length (est_time_lefts q') = length (est_time_lefts q)"
    by (rule impI) (rule print_progress_window_length)
  have d: "calls fl cfg cs (Printer_init fl) = Inr p'' \<longrightarrow>
      length (est_time_lefts p'') = (if list_ex is_finish cs then 3 else 5)"
    using calls_window_length [of fl cfg cs "Printer_init fl" p''] a by simp
  have e: "length w = 3 \<longrightarrow> 3 \<le> c \<longrightarrow>
      smoothed fl w c = Inr (f_div fl (f_sum fl w) (f_int fl 3))"
    by (simp add: smoothed_def div_int_def)
  show ?thesis using a b c d e by blast
qed

theorem window_three_after_print_done_witness:
  "length (est_time_lefts (Printer_init exact)) = 5 \<and>
   list_ex is_finish [Update (Num 0) (Num 0) 0 100 None, Finish (Num 1) None,
      Update (Num 30) (Num 30) 0 100 None, Update (Num 80) (Num 80) 50 100 None] \<and>
   calls exact cfg0
     [Update (Num 0) (Num 0) 0 100 None, Finish (Num 1) None,
      Update (Num 30) (Num 30) 0 100 None, Update (Num 80) (Num 80) 50 100 None]
     (Printer_init exact) =
     Inr \<lparr>is_first_print = False,
          last_percent = Some 50,
          last_percent_time_left = Some (Num 50),
          last_percent_print_time = Some (Num 80),
          est_time_lefts = [Num 0, Num 0, Num 50],
          start_time = Some (Num 30),
          last_printed_line = Some (PROGRESS_WITH_TIME_LEFT 50 100 50 (Some (Num 50)), None)\<rparr> \<and>
   length [Num 0, Num 0, Num 50] = 3"
proof -
  let ?cs = "[Update (Num 0) (Num 0) 0 100 None, Finish (Num 1) None,
      Update (Num 30) (Num 30) 0 100 None, Update (Num 80) (Num 80) 50 100 None]"
  let ?p = "\<lparr>is_first_print = False,
          last_percent = Some 50,
          last_percent_time_left = Some (Num 50),
          last_percent_print_time = Some (Num 80),
          est_time_lefts = [Num 0, Num 0, Num 50],
          start_time = Some (Num 30),
          last_printed_line = Some (PROGRESS_WITH_TIME_LEFT 50 100 50 (Some (Num 50)), None)\<rparr>"
  have r: "calls exact cfg0 ?cs (Printer_init exact) = Inr ?p"
    by (simp add: print_progress_def print_done_def done_text_def estimate_def
        bad_est_time_left_def chunk_left_def smoothed_def slice_from_def Printer_init_def
        exact_simps progress_text_def nonzero_def truthy_def)
  show ?thesis
    using r window_three_after_print_done [where fl = exact and cfg = cfg0 and cs = ?cs
        and p'' = ?p]
    by simp
qed

end
